theory Spec2Isabelle
  imports Complex_Main "HOL-Library.Word"
begin

text \<open>
  A model of \<open>LightFieldWidget\<close> (\<open>src/viewer/light_field_widget.cpp\<close>): the members of
  the widget as a record, each member function as a function on that record, the calls
  on the graphics context as a log, and the ways the process can stop as failures.
\<close>

section \<open>Values of the C++ program\<close>

subsection \<open>Floating point\<close>

text \<open>
  A C++ \<open>double\<close> is a NaN, an infinity or a finite number. Finite values are kept as the
  real they denote. An arithmetic operation on finite operands rounds its exact result:
  the rounding is the parameter \<open>fl\<close> of every operation below (it may also overflow to
  an infinity), and every theorem holds for every \<open>fl\<close>. The model has one zero, read as
  \<open>+0.0\<close>; the only divisor of the program is a converted \<open>int\<close>, whose zero is \<open>+0.0\<close>.
  The widget's \<open>float\<close> members are only stored and read back, so they share the type.
\<close>

datatype double = NaN | NegInf | Finite real | PosInf

type_synonym float = double

text \<open>\<open>a < b\<close> on doubles: false as soon as one side is a NaN.\<close>

fun dless :: "double \<Rightarrow> double \<Rightarrow> bool" where
  "dless NaN b = False"
| "dless a NaN = False"
| "dless NegInf NegInf = False"
| "dless NegInf b = True"
| "dless (Finite a) (Finite b) = (a < b)"
| "dless (Finite a) PosInf = True"
| "dless (Finite a) NegInf = False"
| "dless PosInf b = False"

text \<open>\<open>std::min(a, b)\<close> is \<open>(b < a) ? b : a\<close> and \<open>std::max(a, b)\<close> is \<open>(a < b) ? b : a\<close>.\<close>

definition std_min :: "double \<Rightarrow> double \<Rightarrow> double" where
  "std_min a b = (if dless b a then b else a)"

definition std_max :: "double \<Rightarrow> double \<Rightarrow> double" where
  "std_max a b = (if dless a b then b else a)"

fun dadd :: "(real \<Rightarrow> double) \<Rightarrow> double \<Rightarrow> double \<Rightarrow> double" where
  "dadd fl NaN b = NaN"
| "dadd fl a NaN = NaN"
| "dadd fl (Finite a) (Finite b) = fl (a + b)"
| "dadd fl PosInf NegInf = NaN"
| "dadd fl NegInf PosInf = NaN"
| "dadd fl PosInf b = PosInf"
| "dadd fl a PosInf = PosInf"
| "dadd fl NegInf b = NegInf"
| "dadd fl a NegInf = NegInf"

fun ddiv :: "(real \<Rightarrow> double) \<Rightarrow> double \<Rightarrow> double \<Rightarrow> double" where
  "ddiv fl NaN b = NaN"
| "ddiv fl a NaN = NaN"
| "ddiv fl (Finite a) (Finite b) =
     (if b = 0 then (if a = 0 then NaN else if 0 < a then PosInf else NegInf)
      else fl (a / b))"
| "ddiv fl (Finite a) b = Finite 0"
| "ddiv fl PosInf (Finite b) = (if b < 0 then NegInf else PosInf)"
| "ddiv fl NegInf (Finite b) = (if b < 0 then PosInf else NegInf)"
| "ddiv fl a b = NaN"

text \<open>The cast \<open>(double)i\<close> of an \<open>int\<close> is exact.\<close>

definition to_double :: "int \<Rightarrow> double" where
  "to_double i = Finite (of_int i)"

text \<open>A double lies in the closed unit interval: finite, at least 0 and at most 1.\<close>

fun in_unit :: "double \<Rightarrow> bool" where
  "in_unit (Finite r) = (0 \<le> r \<and> r \<le> 1)"
| "in_unit d = False"

subsection \<open>Machine integers\<close>

text \<open>
  A C++ \<open>int\<close> has 32 bits. Values are kept as HOL integers; a product that leaves the
  range is a signed overflow, which is undefined behaviour and is the result \<open>None\<close>.
\<close>

definition INT_MAX :: int where
  "INT_MAX = 2147483647"

definition INT_MIN :: int where
  "INT_MIN = - 2147483648"

definition int_mul :: "int \<Rightarrow> int \<Rightarrow> int option" where
  "int_mul a b = (if INT_MIN \<le> a * b \<and> a * b \<le> INT_MAX then Some (a * b) else None)"

text \<open>Integer division of C++ truncates towards zero; dividing by zero is undefined.\<close>

definition int_div :: "int \<Rightarrow> int \<Rightarrow> int option" where
  "int_div a b = (if b = 0 then None else Some (sgn a * sgn b * (\<bar>a\<bar> div \<bar>b\<bar>)))"

text \<open>
  The mouse handlers subtract two \<open>int\<close> coordinates. A difference outside the range is
  formally a signed overflow too; the handlers have no way to fail, and the compiled
  subtraction wraps around at 32 bits, which is what \<open>int_sub\<close> computes.
\<close>

definition int_wrap :: "int \<Rightarrow> int" where
  "int_wrap v = (v + 2147483648) mod 4294967296 - 2147483648"

definition int_sub :: "int \<Rightarrow> int \<Rightarrow> int" where
  "int_sub a b = int_wrap (a - b)"

type_synonym uint8_t = "8 word"

subsection \<open>Qt value classes\<close>

datatype QPoint = QPoint (pt_x: int) (pt_y: int)

datatype QPointF = QPointF (ptf_x: double) (ptf_y: double)

datatype QSize = QSize (size_width: int) (size_height: int)

text \<open>
  A \<open>QColor\<close> holds its channels; \<open>red()\<close>, \<open>green()\<close> and \<open>blue()\<close> return them as an
  \<open>int\<close> between 0 and 255.
\<close>

record QColor =
  red_channel :: uint8_t
  green_channel :: uint8_t
  blue_channel :: uint8_t

definition red :: "QColor \<Rightarrow> int" where
  "red c = uint (red_channel c)"

definition green :: "QColor \<Rightarrow> int" where
  "green c = uint (green_channel c)"

definition blue :: "QColor \<Rightarrow> int" where
  "blue c = uint (blue_channel c)"

text \<open>
  A \<open>QImage\<close>: its width, its height and the colour of each pixel. An image that could
  not be decoded is the null image, whose width and height are 0; a decoded image has
  a positive width and height.
\<close>

record QImage =
  img_width :: nat
  img_height :: nat
  pixelColor :: "nat \<Rightarrow> nat \<Rightarrow> QColor"

definition isNull :: "QImage \<Rightarrow> bool" where
  "isNull img \<longleftrightarrow> img_width img = 0 \<or> img_height img = 0"

record ImageInfo =
  path :: string

datatype MouseButton = NoButton | LeftButton | RightButton | MiddleButton

record QMouseEvent =
  button :: MouseButton
  buttons :: "MouseButton set"
  pos :: QPoint

subsection \<open>The graphics interface\<close>

text \<open>
  The calls the widget makes on the OpenGL context, in the order it makes them, are kept
  as a log. A uniform set from \<open>(float)d\<close> records the double \<open>d\<close> that is narrowed.
\<close>

datatype uniform = UFloat float | UFloatCast double | UInt int

datatype gl_call =
    MakeCurrent
  | GlClear
  | ProgramBind
  | SetUniform string uniform
  | TextureBind nat
  | VaoBind
  | GlDrawElements nat
  | VaoRelease
  | TextureRelease nat
  | TextureAllocateStorage int int int
  | TextureSetData "uint8_t list"

datatype Filter = Nearest | Linear

datatype WrapMode = Repeat | ClampToEdge

datatype TextureFormat = NoFormat | RGB8_UNorm

record QOpenGLTexture =
  autoMipMapGenerationEnabled :: bool
  minFilter :: Filter
  magFilter :: Filter
  wrapS :: WrapMode
  wrapT :: WrapMode
  wrapR :: WrapMode
  format :: TextureFormat
  tex_width :: int
  tex_height :: int
  tex_depth :: int
  tex_data :: "uint8_t list"

section \<open>The widget\<close>

text \<open>
  The members the constructor initialises, the texture pointer (null until a light field
  is loaded), the size of the widget as \<open>width()\<close> and \<open>height()\<close> return it, and the log
  of graphics calls. The header that declares the members is not part of the sources:
  their types are read off the constructor and the uses (\<open>cameraPosition\<close> holds doubles,
  \<open>prevMouseClick\<close> holds the integer position of an event).
\<close>

record LightFieldWidget =
  focus :: float
  aperture :: float
  lfRows :: int
  lfCols :: int
  imageSize :: QSize
  cameraPosition :: QPointF
  isClick :: bool
  prevMouseClick :: QPoint
  lightFieldTexture :: "QOpenGLTexture option"
  width :: int
  height :: int
  gl :: "gl_call list"

text \<open>
  The constructor. The size the toolkit gives the new widget is a parameter. The redraw
  timer it starts changes none of the members.
\<close>

definition LightFieldWidget_new :: "int \<Rightarrow> int \<Rightarrow> LightFieldWidget" where
  "LightFieldWidget_new w h =
     \<lparr> focus = Finite 0,
       aperture = Finite 5,
       lfRows = 0,
       lfCols = 0,
       imageSize = QSize 1 1,
       cameraPosition = QPointF (Finite (1/2)) (Finite (1/2)),
       isClick = False,
       prevMouseClick = QPoint 0 0,
       lightFieldTexture = None,
       width = w,
       height = h,
       gl = [] \<rparr>"

subsection \<open>Size hints\<close>

text \<open>\<open>h * imageSize.width() / imageSize.height()\<close> with \<open>h = 512\<close>, in \<open>int\<close>.\<close>

definition sizeHint :: "LightFieldWidget \<Rightarrow> QSize option" where
  "sizeHint s =
     (let h = 512 in
      case int_mul h (size_width (imageSize s)) of
        None \<Rightarrow> None
      | Some p \<Rightarrow>
          (case int_div p (size_height (imageSize s)) of
             None \<Rightarrow> None
           | Some w \<Rightarrow> Some (QSize w h)))"

definition minimumSizeHint :: "LightFieldWidget \<Rightarrow> QSize option" where
  "minimumSizeHint s = sizeHint s"

subsection \<open>Rendering\<close>

definition indexBufferSize :: nat where
  "indexBufferSize = 6"

definition paintGL :: "LightFieldWidget \<Rightarrow> LightFieldWidget" where
  "paintGL s =
     (case lightFieldTexture s of
        None \<Rightarrow> s
      | Some t \<Rightarrow>
          s\<lparr> gl := gl s @
            [ GlClear,
              ProgramBind,
              SetUniform ''focusPoint'' (UFloat (focus s)),
              SetUniform ''apertureSize'' (UFloat (aperture s)),
              SetUniform ''cameraPositionX'' (UFloatCast (ptf_x (cameraPosition s))),
              SetUniform ''cameraPositionY'' (UFloatCast (ptf_y (cameraPosition s))),
              TextureBind 0,
              SetUniform ''textureImages'' (UInt 0),
              SetUniform ''focusPoint'' (UFloat (focus s)),
              SetUniform ''apertureSize'' (UFloat (aperture s)),
              SetUniform ''rows'' (UInt (lfRows s)),
              SetUniform ''cols'' (UInt (lfCols s)),
              VaoBind,
              GlDrawElements indexBufferSize,
              VaoRelease,
              TextureRelease 0 ] \<rparr>)"

subsection \<open>Mouse events\<close>

definition mousePressEvent :: "QMouseEvent \<Rightarrow> LightFieldWidget \<Rightarrow> LightFieldWidget" where
  "mousePressEvent ev s =
     (if button ev = LeftButton
      then s\<lparr> isClick := True, prevMouseClick := pos ev \<rparr>
      else s)"

definition clamp01 :: "double \<Rightarrow> double" where
  "clamp01 v = std_max (Finite 0) (std_min v (Finite 1))"

definition mouseMoveEvent ::
  "(real \<Rightarrow> double) \<Rightarrow> QMouseEvent \<Rightarrow> LightFieldWidget \<Rightarrow> LightFieldWidget" where
  "mouseMoveEvent fl ev s =
     (if LeftButton \<in> buttons ev then
        (if isClick s then
           (let size = to_double (min (width s) (height s));
                dx = ddiv fl (to_double (int_sub (pt_x (pos ev)) (pt_x (prevMouseClick s)))) size;
                dy = ddiv fl (to_double (int_sub (pt_y (pos ev)) (pt_y (prevMouseClick s)))) size;
                cx = clamp01 (dadd fl (ptf_x (cameraPosition s)) dx);
                cy = clamp01 (dadd fl (ptf_y (cameraPosition s)) dy)
            in s\<lparr> cameraPosition := QPointF cx cy \<rparr>)
         else s)
      else s)"

definition mouseReleaseEvent :: "QMouseEvent \<Rightarrow> LightFieldWidget \<Rightarrow> LightFieldWidget" where
  "mouseReleaseEvent ev s =
     (if button ev = LeftButton then s\<lparr> isClick := False \<rparr> else s)"

subsection \<open>Accessors\<close>

definition setFocusPoint :: "float \<Rightarrow> LightFieldWidget \<Rightarrow> LightFieldWidget" where
  "setFocusPoint v s = s\<lparr> focus := v \<rparr>"

definition setApertureSize :: "float \<Rightarrow> LightFieldWidget \<Rightarrow> LightFieldWidget" where
  "setApertureSize v s = s\<lparr> aperture := v \<rparr>"

definition focusPoint :: "LightFieldWidget \<Rightarrow> float" where
  "focusPoint s = focus s"

definition apertureSize :: "LightFieldWidget \<Rightarrow> float" where
  "apertureSize s = aperture s"

subsection \<open>Loading a light field\<close>

text \<open>
  The ways \<open>setLightField\<close> can fail to return: \<open>std::abort()\<close> after a diagnostic, the
  \<open>std::length_error\<close> that \<open>std::vector\<close> throws for a size beyond its maximum (nothing
  catches it, so the process terminates), and undefined behaviour (a signed overflow, an
  access outside a vector).
\<close>

datatype failure = Aborted | LengthError | Undefined

text \<open>
  \<open>imageData[i] = v\<close>. Writing outside the vector is undefined. The index is computed in
  \<open>int\<close>; an index too large for \<open>int\<close> is outside every vector the program allocates,
  so the check on the length covers the overflow of the index as well.
\<close>

definition store :: "nat \<Rightarrow> uint8_t \<Rightarrow> uint8_t list \<Rightarrow> uint8_t list option" where
  "store i v buf = (if i < length buf then Some (buf[i := v]) else None)"

text \<open>\<open>((k * imageH + y) * imageW + x) * 3\<close>, the index of the red byte of a pixel.\<close>

definition pixel_index :: "nat \<Rightarrow> nat \<Rightarrow> nat \<Rightarrow> nat \<Rightarrow> nat \<Rightarrow> nat" where
  "pixel_index imageW imageH k y x = ((k * imageH + y) * imageW + x) * 3"

text \<open>The body of the innermost loop; \<open>(uint8_t)\<close> keeps the low eight bits.\<close>

definition put_pixel ::
  "QImage \<Rightarrow> nat \<Rightarrow> nat \<Rightarrow> nat \<Rightarrow> nat \<Rightarrow> nat \<Rightarrow> uint8_t list \<Rightarrow> uint8_t list option" where
  "put_pixel img imageW imageH k y x buf =
     (let color = pixelColor img x y in
      case store (pixel_index imageW imageH k y x + 0) (word_of_int (red color)) buf of
        None \<Rightarrow> None
      | Some b0 \<Rightarrow>
          (case store (pixel_index imageW imageH k y x + 1) (word_of_int (green color)) b0 of
             None \<Rightarrow> None
           | Some b1 \<Rightarrow>
               store (pixel_index imageW imageH k y x + 2) (word_of_int (blue color)) b1))"

text \<open>\<open>for (int x = 0; x < imageW; x++)\<close>, from the current \<open>x\<close>.\<close>

function copy_x ::
  "QImage \<Rightarrow> nat \<Rightarrow> nat \<Rightarrow> nat \<Rightarrow> nat \<Rightarrow> nat \<Rightarrow> uint8_t list \<Rightarrow> uint8_t list option" where
  "copy_x img imageW imageH k y x buf =
     (if x < imageW then
        (case put_pixel img imageW imageH k y x buf of
           None \<Rightarrow> None
         | Some b \<Rightarrow> copy_x img imageW imageH k y (Suc x) b)
      else Some buf)"
  by pat_completeness auto
termination
  by (relation "measure (\<lambda>(img, imageW, imageH, k, y, x, buf). imageW - x)") auto

text \<open>\<open>for (int y = 0; y < imageH; y++)\<close>, from the current \<open>y\<close>.\<close>

function copy_y ::
  "QImage \<Rightarrow> nat \<Rightarrow> nat \<Rightarrow> nat \<Rightarrow> nat \<Rightarrow> uint8_t list \<Rightarrow> uint8_t list option" where
  "copy_y img imageW imageH k y buf =
     (if y < imageH then
        (case copy_x img imageW imageH k y 0 buf of
           None \<Rightarrow> None
         | Some b \<Rightarrow> copy_y img imageW imageH k (Suc y) b)
      else Some buf)"
  by pat_completeness auto
termination
  by (relation "measure (\<lambda>(img, imageW, imageH, k, y, buf). imageH - y)") auto

text \<open>
  \<open>for (int k = 0; k < viewInfos.size(); k++)\<close>, from the current \<open>k\<close>. The parameter
  \<open>decode\<close> is what constructing a \<open>QImage\<close> from a path yields: the decoded file, or the
  null image.
\<close>

function copy_views ::
  "(string \<Rightarrow> QImage) \<Rightarrow> ImageInfo list \<Rightarrow> nat \<Rightarrow> nat \<Rightarrow> nat \<Rightarrow> uint8_t list
     \<Rightarrow> failure + uint8_t list" where
  "copy_views decode viewInfos imageW imageH k buf =
     (if k < length viewInfos then
        (let img = decode (path (viewInfos ! k)) in
         if img_width img \<noteq> imageW \<or> img_height img \<noteq> imageH then Inl Aborted
         else
           (case copy_y img imageW imageH k 0 buf of
              None \<Rightarrow> Inl Undefined
            | Some b \<Rightarrow> copy_views decode viewInfos imageW imageH (Suc k) b))
      else Inr buf)"
  by pat_completeness auto
termination
  by (relation "measure (\<lambda>(decode, viewInfos, imageW, imageH, k, buf). length viewInfos - k)")
    auto

text \<open>
  The equations of the loops are not simplification rules: a proof unfolds one iteration
  at a time, by computation induction.
\<close>

declare copy_x.simps [simp del] copy_y.simps [simp del] copy_views.simps [simp del]

text \<open>\<open>(rows * cols) * imageH * imageW * 3\<close>, multiplied from the left in \<open>int\<close>.\<close>

definition imageData_size :: "int \<Rightarrow> int \<Rightarrow> int \<Rightarrow> int \<Rightarrow> int option" where
  "imageData_size rows cols imageH imageW =
     (case int_mul rows cols of
        None \<Rightarrow> None
      | Some a \<Rightarrow>
          (case int_mul a imageH of
             None \<Rightarrow> None
           | Some b \<Rightarrow>
               (case int_mul b imageW of
                  None \<Rightarrow> None
                | Some c \<Rightarrow> int_mul c 3)))"

text \<open>
  \<open>setLightField\<close>. A failure comes with the state of the widget at the moment the
  process stops (for undefined behaviour, the state just before it). Reading
  \<open>viewInfos[0]\<close> of an empty vector is undefined. A negative \<open>int\<close> converted to the
  unsigned size of the vector exceeds its maximal size. The vector starts filled with
  zeros; memory for it is assumed to be available. The notification of the layout and
  the diagnostics change no member.
\<close>

definition setLightField ::
  "(string \<Rightarrow> QImage) \<Rightarrow> ImageInfo list \<Rightarrow> int \<Rightarrow> int \<Rightarrow> LightFieldWidget
     \<Rightarrow> (failure \<times> LightFieldWidget) + LightFieldWidget" where
  "setLightField decode viewInfos rows cols s =
     (let s1 = s\<lparr> lfRows := rows, lfCols := cols, gl := gl s @ [MakeCurrent] \<rparr> in
      if viewInfos = [] then Inl (Undefined, s1)
      else
        (let temp = decode (path (viewInfos ! 0)) in
         if isNull temp then Inl (Aborted, s1)
         else
           (let imageW = img_width temp;
                imageH = img_height temp;
                s2 = s1\<lparr> imageSize := QSize (int imageW) (int imageH) \<rparr>
            in case imageData_size rows cols (int imageH) (int imageW) of
                 None \<Rightarrow> Inl (Undefined, s2)
               | Some n \<Rightarrow>
                   if n < 0 then Inl (LengthError, s2)
                   else
                     (case copy_views decode viewInfos imageW imageH 0
                             (replicate (nat n) 0) of
                        Inl e \<Rightarrow> Inl (e, s2)
                      | Inr imageData \<Rightarrow>
                          Inr (s2\<lparr> lightFieldTexture := Some
                                 \<lparr> autoMipMapGenerationEnabled = False,
                                   minFilter = Linear,
                                   magFilter = Linear,
                                   wrapS = ClampToEdge,
                                   wrapT = ClampToEdge,
                                   wrapR = ClampToEdge,
                                   format = RGB8_UNorm,
                                   tex_width = int imageW,
                                   tex_height = int imageH,
                                   tex_depth = rows * cols,
                                   tex_data = imageData \<rparr>,
                               gl := gl s2 @
                                 [ TextureAllocateStorage (int imageW) (int imageH) (rows * cols),
                                   TextureSetData imageData ] \<rparr>)))))"

section \<open>Predicates on buffers\<close>

text \<open>The three bytes from index \<open>p\<close> on hold the channels of \<open>c\<close>.\<close>

definition pixel_stored :: "uint8_t list \<Rightarrow> nat \<Rightarrow> QColor \<Rightarrow> bool" where
  "pixel_stored buf p c \<longleftrightarrow>
     uint (buf ! (p + 0)) = red c \<and> uint (buf ! (p + 1)) = green c \<and>
     uint (buf ! (p + 2)) = blue c"

text \<open>
  Two buffers of the same length that agree at every index below \<open>lo\<close> and at every
  index from \<open>hi\<close> on.
\<close>

definition unchanged_outside :: "nat \<Rightarrow> nat \<Rightarrow> uint8_t list \<Rightarrow> uint8_t list \<Rightarrow> bool" where
  "unchanged_outside lo hi buf b \<longleftrightarrow>
     length b = length buf \<and> (\<forall>i. i < lo \<or> hi \<le> i \<longrightarrow> b ! i = buf ! i)"

section \<open>Sequences of mouse events\<close>

datatype mouse_event = Press QMouseEvent | Move QMouseEvent | Release QMouseEvent

fun deliver :: "(real \<Rightarrow> double) \<Rightarrow> LightFieldWidget \<Rightarrow> mouse_event \<Rightarrow> LightFieldWidget" where
  "deliver fl s (Press ev) = mousePressEvent ev s"
| "deliver fl s (Move ev) = mouseMoveEvent fl ev s"
| "deliver fl s (Release ev) = mouseReleaseEvent ev s"

text \<open>The camera position lies in the unit square.\<close>

definition camera_in_unit_square :: "LightFieldWidget \<Rightarrow> bool" where
  "camera_in_unit_square s \<longleftrightarrow>
     in_unit (ptf_x (cameraPosition s)) \<and> in_unit (ptf_y (cameraPosition s))"

text \<open>A press followed by move events, with no release in between.\<close>

definition drag ::
  "(real \<Rightarrow> double) \<Rightarrow> QMouseEvent \<Rightarrow> QMouseEvent list \<Rightarrow> LightFieldWidget
     \<Rightarrow> LightFieldWidget" where
  "drag fl press moves s =
     foldl (\<lambda>t m. mouseMoveEvent fl m t) (mousePressEvent press s) moves"

section \<open>Camera control\<close>

lemma in_unit_clamp01: "in_unit (clamp01 v)"
  by (cases v) (simp_all add: clamp01_def std_min_def std_max_def)

lemma camera_new: "camera_in_unit_square (LightFieldWidget_new w h)"
  by (simp add: camera_in_unit_square_def LightFieldWidget_new_def)

lemma camera_deliver:
  "camera_in_unit_square s \<Longrightarrow> camera_in_unit_square (deliver fl s e)"
  by (cases e)
    (simp_all add: camera_in_unit_square_def mousePressEvent_def mouseMoveEvent_def
      mouseReleaseEvent_def Let_def in_unit_clamp01)

lemma camera_foldl:
  "camera_in_unit_square s \<Longrightarrow> camera_in_unit_square (foldl (deliver fl) s evs)"
  by (induction evs arbitrary: s) (simp_all add: camera_deliver)

text \<open>
  Claim C2. Start from the constructed widget, whose camera is at the centre of the unit
  square, and deliver any sequence of press, move and release events, with any rounding
  of the floating-point operations and any size of the widget (also 0, where the delta
  is an infinity or a NaN): the camera position is then finite with both coordinates
  between 0 and 1. The sequence is arbitrary, so this holds after each of its events.
\<close>

theorem camera_clamp_invariant:
  "camera_in_unit_square (foldl (deliver fl) (LightFieldWidget_new w h) evs)"
  by (rule camera_foldl) (rule camera_new)

lemma mouseMove_frame:
  "prevMouseClick (mouseMoveEvent fl m s) = prevMouseClick s \<and>
   isClick (mouseMoveEvent fl m s) = isClick s \<and>
   width (mouseMoveEvent fl m s) = width s \<and>
   height (mouseMoveEvent fl m s) = height s"
  by (simp add: mouseMoveEvent_def Let_def)

lemma moves_frame:
  "prevMouseClick (foldl (\<lambda>t m. mouseMoveEvent fl m t) s moves) = prevMouseClick s \<and>
   isClick (foldl (\<lambda>t m. mouseMoveEvent fl m t) s moves) = isClick s \<and>
   width (foldl (\<lambda>t m. mouseMoveEvent fl m t) s moves) = width s \<and>
   height (foldl (\<lambda>t m. mouseMoveEvent fl m t) s moves) = height s"
  by (induction moves arbitrary: s) (simp_all add: mouseMove_frame)

lemma drag_frame:
  "button press = LeftButton \<Longrightarrow>
   prevMouseClick (drag fl press moves s) = pos press \<and> isClick (drag fl press moves s) \<and>
   width (drag fl press moves s) = width s \<and> height (drag fl press moves s) = height s"
  by (simp add: drag_def moves_frame mousePressEvent_def)

lemma clamp01_cases:
  "clamp01 v =
     (case v of NaN \<Rightarrow> Finite 0 | NegInf \<Rightarrow> Finite 0
      | Finite r \<Rightarrow> Finite (max 0 (min r 1)) | PosInf \<Rightarrow> Finite 1)"
  by (cases v) (auto simp add: clamp01_def std_min_def std_max_def)

lemma int_sub_exact:
  "- 2147483648 \<le> a - b \<Longrightarrow> a - b \<le> 2147483647 \<Longrightarrow> int_sub a b = a - b"
  by (simp add: int_sub_def int_wrap_def)

text \<open>
  Claim C3, amended. After a press of the left button and any number of move events, the
  recorded position is still the position of the press, and a further move leaves it so.
  A further move event with the left button held replaces each coordinate of the camera
  position as follows, and changes nothing else. The offset of the event from the press
  position (not from the previous move) is computed in \<open>int\<close>, is divided by the smaller
  side of the widget and is added to the coordinate. A finite sum is then raised to 0 if
  it is smaller and lowered to 1 if it is larger; a sum that is infinite becomes 0 or 1
  by its sign, and a NaN becomes 0. The offset computed in \<open>int\<close> is the exact difference
  of the coordinates whenever that difference lies in the range of \<open>int\<close>.
\<close>

theorem drag_delta_base_point:
  assumes "button press = LeftButton" and "LeftButton \<in> buttons ev"
  shows "prevMouseClick (drag fl press moves s) = pos press \<and>
    prevMouseClick (mouseMoveEvent fl ev (drag fl press moves s)) = pos press \<and>
    (let vx = dadd fl (ptf_x (cameraPosition (drag fl press moves s)))
                (ddiv fl (to_double (int_sub (pt_x (pos ev)) (pt_x (pos press))))
                   (to_double (min (width s) (height s))));
         vy = dadd fl (ptf_y (cameraPosition (drag fl press moves s)))
                (ddiv fl (to_double (int_sub (pt_y (pos ev)) (pt_y (pos press))))
                   (to_double (min (width s) (height s))))
     in mouseMoveEvent fl ev (drag fl press moves s) =
          (drag fl press moves s)\<lparr> cameraPosition :=
             QPointF
               (case vx of NaN \<Rightarrow> Finite 0 | NegInf \<Rightarrow> Finite 0
                | Finite r \<Rightarrow> Finite (max 0 (min r 1)) | PosInf \<Rightarrow> Finite 1)
               (case vy of NaN \<Rightarrow> Finite 0 | NegInf \<Rightarrow> Finite 0
                | Finite r \<Rightarrow> Finite (max 0 (min r 1)) | PosInf \<Rightarrow> Finite 1) \<rparr>) \<and>
    (- 2147483648 \<le> pt_x (pos ev) - pt_x (pos press) \<and>
     pt_x (pos ev) - pt_x (pos press) \<le> 2147483647 \<longrightarrow>
       int_sub (pt_x (pos ev)) (pt_x (pos press)) = pt_x (pos ev) - pt_x (pos press)) \<and>
    (- 2147483648 \<le> pt_y (pos ev) - pt_y (pos press) \<and>
     pt_y (pos ev) - pt_y (pos press) \<le> 2147483647 \<longrightarrow>
       int_sub (pt_y (pos ev)) (pt_y (pos press)) = pt_y (pos ev) - pt_y (pos press))"
  using drag_frame [OF assms(1), of fl moves s] assms(2)
  by (simp add: mouseMoveEvent_def Let_def clamp01_cases int_sub_exact mouseMove_frame)

text \<open>
  A 200 by 100 widget and a press at (10, 20). A move to (80, 45) adds 70 / 100 and
  25 / 100 to (1/2, 1/2): the first coordinate is lowered to 1. A second move to
  (-150, 10) adds -160 / 100 and -10 / 100, the offsets from the press, to (1, 3/4): the
  first coordinate is raised to 0.
\<close>

theorem drag_delta_base_point_witness:
  "cameraPosition
     (mouseMoveEvent Finite \<lparr> button = NoButton, buttons = {LeftButton}, pos = QPoint 80 45 \<rparr>
        (drag Finite \<lparr> button = LeftButton, buttons = {LeftButton}, pos = QPoint 10 20 \<rparr>
           [] (LightFieldWidget_new 200 100))) = QPointF (Finite 1) (Finite (3/4)) \<and>
   prevMouseClick
     (drag Finite \<lparr> button = LeftButton, buttons = {LeftButton}, pos = QPoint 10 20 \<rparr>
        [\<lparr> button = NoButton, buttons = {LeftButton}, pos = QPoint 80 45 \<rparr>]
        (LightFieldWidget_new 200 100)) = QPoint 10 20 \<and>
   cameraPosition
     (mouseMoveEvent Finite \<lparr> button = NoButton, buttons = {LeftButton}, pos = QPoint (- 150) 10 \<rparr>
        (drag Finite \<lparr> button = LeftButton, buttons = {LeftButton}, pos = QPoint 10 20 \<rparr>
           [\<lparr> button = NoButton, buttons = {LeftButton}, pos = QPoint 80 45 \<rparr>]
           (LightFieldWidget_new 200 100))) = QPointF (Finite 0) (Finite (13/20))"
proof -
  let ?press = "\<lparr> button = LeftButton, buttons = {LeftButton}, pos = QPoint 10 20 \<rparr>"
  let ?m1 = "\<lparr> button = NoButton, buttons = {LeftButton}, pos = QPoint 80 45 \<rparr>"
  let ?m2 = "\<lparr> button = NoButton, buttons = {LeftButton}, pos = QPoint (- 150) 10 \<rparr>"
  let ?s = "LightFieldWidget_new 200 100"
  have h1: "button ?press = LeftButton" by simp
  have h2: "LeftButton \<in> buttons ?m1" and h3: "LeftButton \<in> buttons ?m2" by simp_all
  have geo: "width ?s = 200" "height ?s = 100"
    by (simp_all add: LightFieldWidget_new_def)
  have start: "cameraPosition (drag Finite ?press [] ?s) = QPointF (Finite (1/2)) (Finite (1/2))"
    by (simp add: drag_def mousePressEvent_def LightFieldWidget_new_def)
  have step: "drag Finite ?press [?m1] ?s = mouseMoveEvent Finite ?m1 (drag Finite ?press [] ?s)"
    by (simp add: drag_def)
  have first: "cameraPosition (mouseMoveEvent Finite ?m1 (drag Finite ?press [] ?s)) =
      QPointF (Finite 1) (Finite (3/4))"
    using drag_delta_base_point [OF h1 h2, of Finite "[]" ?s]
    by (simp add: start geo to_double_def int_sub_def int_wrap_def Let_def)
  have second: "prevMouseClick (drag Finite ?press [?m1] ?s) = QPoint 10 20 \<and>
      cameraPosition (mouseMoveEvent Finite ?m2 (drag Finite ?press [?m1] ?s)) =
      QPointF (Finite 0) (Finite (13/20))"
    using drag_delta_base_point [OF h1 h3, of Finite "[?m1]" ?s] first
    by (simp add: step geo to_double_def int_sub_def int_wrap_def Let_def)
  from first second show ?thesis by simp
qed

text \<open>
  The claim as it was stated, with the exact difference of the coordinates, fails when
  the coordinates are further apart than an \<open>int\<close> can hold. A press at -1073741824 and a
  move to 1073741824 are 2147483648 apart: the exact delta is positive and would take
  the camera to 1, the subtraction in \<open>int\<close> yields -2147483648 and the camera goes
  to 0.
\<close>

theorem drag_delta_base_point_counterexample:
  "ptf_x (cameraPosition
     (mouseMoveEvent Finite
        \<lparr> button = NoButton, buttons = {LeftButton}, pos = QPoint 1073741824 20 \<rparr>
        (drag Finite
           \<lparr> button = LeftButton, buttons = {LeftButton}, pos = QPoint (- 1073741824) 20 \<rparr>
           [] (LightFieldWidget_new 200 100)))) = Finite 0 \<and>
   ptf_x (cameraPosition
     (mouseMoveEvent Finite
        \<lparr> button = NoButton, buttons = {LeftButton}, pos = QPoint 1073741824 20 \<rparr>
        (drag Finite
           \<lparr> button = LeftButton, buttons = {LeftButton}, pos = QPoint (- 1073741824) 20 \<rparr>
           [] (LightFieldWidget_new 200 100)))) \<noteq>
     Finite (max 0 (min (1/2 + (1073741824 - (- 1073741824)) / 100) 1))"
  by (simp add: drag_def mousePressEvent_def mouseMoveEvent_def LightFieldWidget_new_def
      clamp01_def std_min_def std_max_def to_double_def int_sub_def int_wrap_def Let_def)

text \<open>
  Claim C10. A press and a release leave the camera position as it is; a press sets the
  dragging flag and records its position exactly when its button is the left one. A move
  event changes nothing unless the dragging flag is set and the left button is held.
\<close>

theorem drag_gating:
  assumes "\<not> (isClick s \<and> LeftButton \<in> buttons mv)"
  shows "cameraPosition (mousePressEvent ev s) = cameraPosition s \<and>
    isClick (mousePressEvent ev s) = (button ev = LeftButton \<or> isClick s) \<and>
    prevMouseClick (mousePressEvent ev s) =
      (if button ev = LeftButton then pos ev else prevMouseClick s) \<and>
    cameraPosition (mouseReleaseEvent ev s) = cameraPosition s \<and>
    mouseMoveEvent fl mv s = s"
  using assms
  by (auto simp add: mousePressEvent_def mouseReleaseEvent_def mouseMoveEvent_def)

theorem drag_gating_witness:
  "mouseMoveEvent Finite \<lparr> button = NoButton, buttons = {LeftButton}, pos = QPoint 20 10 \<rparr>
     (LightFieldWidget_new 200 100) = LightFieldWidget_new 200 100 \<and>
   isClick
     (mousePressEvent \<lparr> button = LeftButton, buttons = {LeftButton}, pos = QPoint 3 4 \<rparr>
        (LightFieldWidget_new 200 100)) \<and>
   prevMouseClick
     (mousePressEvent \<lparr> button = LeftButton, buttons = {LeftButton}, pos = QPoint 3 4 \<rparr>
        (LightFieldWidget_new 200 100)) = QPoint 3 4"
proof -
  let ?mv = "\<lparr> button = NoButton, buttons = {LeftButton}, pos = QPoint 20 10 \<rparr>"
  let ?ev = "\<lparr> button = LeftButton, buttons = {LeftButton}, pos = QPoint 3 4 \<rparr>"
  have h: "\<not> (isClick (LightFieldWidget_new 200 100) \<and> LeftButton \<in> buttons ?mv)"
    by (simp add: LightFieldWidget_new_def)
  show ?thesis
    using drag_gating [OF h, of ?ev Finite] by simp
qed

section \<open>Construction, accessors and rendering\<close>

text \<open>
  Claim C7. The constructed widget has focus 0, aperture 5 and its camera at (1/2, 1/2).
\<close>

theorem default_state:
  "focus (LightFieldWidget_new w h) = Finite 0 \<and>
   aperture (LightFieldWidget_new w h) = Finite 5 \<and>
   cameraPosition (LightFieldWidget_new w h) = QPointF (Finite (1/2)) (Finite (1/2))"
  by (simp add: LightFieldWidget_new_def)

text \<open>
  Claim C8. Whatever value is set, finite or not, the getter returns that value: the
  setters check nothing.
\<close>

theorem accessor_round_trip:
  "focusPoint (setFocusPoint v s) = v \<and> apertureSize (setApertureSize v s) = v"
  by (simp add: focusPoint_def setFocusPoint_def apertureSize_def setApertureSize_def)

text \<open>
  Claim C5. While the widget has no light-field texture, a render pass leaves the whole
  state as it is: it makes no graphics call at all, so neither a draw call nor any other
  change of the graphics state (it returns before the clear too).
\<close>

theorem paintGL_without_texture:
  assumes "lightFieldTexture s = None"
  shows "paintGL s = s"
  using assms by (simp add: paintGL_def)

theorem paintGL_without_texture_witness:
  "lightFieldTexture (LightFieldWidget_new 640 480) = None \<and>
   gl (paintGL (LightFieldWidget_new 640 480)) = []"
proof -
  have h: "lightFieldTexture (LightFieldWidget_new 640 480) = None"
    by (simp add: LightFieldWidget_new_def)
  show ?thesis
    using paintGL_without_texture [OF h] h by (simp add: LightFieldWidget_new_def)
qed

section \<open>Loading a light field: the copy loops\<close>

lemma pixel_index_Suc_x:
  "pixel_index W H k y (Suc x) = pixel_index W H k y x + 3"
  by (simp add: pixel_index_def)

lemma pixel_index_row_end:
  "pixel_index W H k y W = pixel_index W H k (Suc y) 0"
  by (simp add: pixel_index_def algebra_simps)

lemma pixel_index_view_end:
  "pixel_index W H k H 0 = pixel_index W H (Suc k) 0 0"
  by (simp add: pixel_index_def algebra_simps)

lemma pixel_index_mono_x:
  "x \<le> x' \<Longrightarrow> pixel_index W H k y x \<le> pixel_index W H k y x'"
  by (simp add: pixel_index_def)

lemma pixel_index_mono_y:
  "y \<le> y' \<Longrightarrow> pixel_index W H k y 0 \<le> pixel_index W H k y' 0"
  by (simp add: pixel_index_def)

lemma pixel_index_mono_k:
  "k \<le> k' \<Longrightarrow> pixel_index W H k 0 0 \<le> pixel_index W H k' 0 0"
  by (simp add: pixel_index_def)

lemma pixel_index_x_bound:
  assumes "x < W"
  shows "pixel_index W H k y x + 3 \<le> pixel_index W H k y W"
  using pixel_index_mono_x [of "Suc x" W W H k y] assms
  by (simp add: pixel_index_Suc_x)

lemma put_pixel_eq:
  "put_pixel img W H k y x buf =
     (if pixel_index W H k y x + 2 < length buf
      then Some (buf[pixel_index W H k y x := word_of_int (red (pixelColor img x y)),
                     pixel_index W H k y x + 1 := word_of_int (green (pixelColor img x y)),
                     pixel_index W H k y x + 2 := word_of_int (blue (pixelColor img x y))])
      else None)"
  by (simp add: put_pixel_def store_def Let_def)

lemma pixel_stored_update:
  assumes "p + 2 < length buf"
  shows "pixel_stored (buf[p := word_of_int (red c), p + 1 := word_of_int (green c),
           p + 2 := word_of_int (blue c)]) p c"
  using assms by (simp add: pixel_stored_def red_def green_def blue_def)

lemma pixel_stored_cong:
  "pixel_stored buf p c \<Longrightarrow> b ! p = buf ! p \<Longrightarrow> b ! (p + 1) = buf ! (p + 1) \<Longrightarrow>
   b ! (p + 2) = buf ! (p + 2) \<Longrightarrow> pixel_stored b p c"
  by (simp add: pixel_stored_def)

lemma copy_x_Some:
  "copy_x img W H k y x buf = Some b \<Longrightarrow> x \<le> W \<Longrightarrow>
   unchanged_outside (pixel_index W H k y x) (pixel_index W H k y W) buf b \<and>
   (\<forall>x'. x \<le> x' \<and> x' < W \<longrightarrow>
      pixel_stored b (pixel_index W H k y x') (pixelColor img x' y))"
proof (induction img W H k y x buf rule: copy_x.induct)
  case (1 img W H k y x buf)
  let ?p = "pixel_index W H k y x"
  show ?case
  proof (cases "x < W")
    case False
    with "1.prems" show ?thesis
      by (auto simp add: copy_x.simps [of img W H k y x buf] unchanged_outside_def)
  next
    case True
    let ?b1 = "buf[?p := word_of_int (red (pixelColor img x y)),
                   ?p + 1 := word_of_int (green (pixelColor img x y)),
                   ?p + 2 := word_of_int (blue (pixelColor img x y))]"
    from True "1.prems"(1) have inb: "?p + 2 < length buf"
      and put: "put_pixel img W H k y x buf = Some ?b1"
      and rec: "copy_x img W H k y (Suc x) ?b1 = Some b"
      by (auto simp add: copy_x.simps [of img W H k y x buf] put_pixel_eq split: if_splits)
    from "1.IH" [OF True put rec] True
    have fr: "unchanged_outside (?p + 3) (pixel_index W H k y W) ?b1 b"
      and ct: "\<forall>x'. Suc x \<le> x' \<and> x' < W \<longrightarrow>
        pixel_stored b (pixel_index W H k y x') (pixelColor img x' y)"
      by (simp_all add: pixel_index_Suc_x)
    have bound: "?p + 3 \<le> pixel_index W H k y W"
      using True by (rule pixel_index_x_bound)
    have "unchanged_outside ?p (pixel_index W H k y W) buf b"
      using fr bound by (auto simp add: unchanged_outside_def)
    moreover have here: "pixel_stored b ?p (pixelColor img x y)"
    proof (rule pixel_stored_cong [OF pixel_stored_update [OF inb]])
      show "b ! ?p = ?b1 ! ?p" "b ! (?p + 1) = ?b1 ! (?p + 1)" "b ! (?p + 2) = ?b1 ! (?p + 2)"
        using fr by (simp_all add: unchanged_outside_def)
    qed
    moreover have "pixel_stored b (pixel_index W H k y x') (pixelColor img x' y)"
      if "x \<le> x'" "x' < W" for x'
    proof (cases "x' = x")
      case True
      with here show ?thesis by simp
    next
      case False
      with that have "Suc x \<le> x'" by simp
      with ct that show ?thesis by blast
    qed
    ultimately show ?thesis by blast
  qed
qed

lemma copy_x_succeeds:
  "x \<le> W \<Longrightarrow> pixel_index W H k y W \<le> length buf \<Longrightarrow>
   \<exists>b. copy_x img W H k y x buf = Some b"
proof (induction img W H k y x buf rule: copy_x.induct)
  case (1 img W H k y x buf)
  show ?case
  proof (cases "x < W")
    case False
    then show ?thesis by (simp add: copy_x.simps [of img W H k y x buf])
  next
    case True
    let ?p = "pixel_index W H k y x"
    have inb: "?p + 2 < length buf"
      using pixel_index_x_bound [OF True, of H k y] "1.prems"(2) by simp
    then obtain b1 where put: "put_pixel img W H k y x buf = Some b1"
      and len: "length b1 = length buf"
      by (simp add: put_pixel_eq)
    from "1.IH" [OF True put] True "1.prems"(2) len
    have "\<exists>b. copy_x img W H k y (Suc x) b1 = Some b" by simp
    then show ?thesis
      using True put by (simp add: copy_x.simps [of img W H k y x buf])
  qed
qed

lemma unchanged_outside_trans:
  assumes "unchanged_outside lo mid buf b1" and "unchanged_outside mid hi b1 b"
    and "lo \<le> mid" and "mid \<le> hi"
  shows "unchanged_outside lo hi buf b"
  using assms by (auto simp add: unchanged_outside_def)

lemma pixel_stored_unchanged:
  assumes "pixel_stored b1 p c" and "unchanged_outside lo hi b1 b" and "p + 3 \<le> lo"
  shows "pixel_stored b p c"
  using assms by (simp add: pixel_stored_def unchanged_outside_def)

lemma pixel_index_xy_bound:
  assumes "x < W"
  shows "pixel_index W H k y x + 3 \<le> pixel_index W H k (Suc y) 0"
  using pixel_index_x_bound [OF assms, of H k y] by (simp add: pixel_index_row_end)

lemma pixel_index_y_bound:
  assumes "y < H"
  shows "pixel_index W H k (Suc y) 0 \<le> pixel_index W H (Suc k) 0 0"
  using pixel_index_mono_y [of "Suc y" H W H k] assms
  by (simp add: pixel_index_view_end)

lemma copy_y_Some:
  "copy_y img W H k y buf = Some b \<Longrightarrow> y \<le> H \<Longrightarrow>
   unchanged_outside (pixel_index W H k y 0) (pixel_index W H (Suc k) 0 0) buf b \<and>
   (\<forall>y' x'. y \<le> y' \<and> y' < H \<and> x' < W \<longrightarrow>
      pixel_stored b (pixel_index W H k y' x') (pixelColor img x' y'))"
proof (induction img W H k y buf rule: copy_y.induct)
  case (1 img W H k y buf)
  show ?case
  proof (cases "y < H")
    case False
    with "1.prems" show ?thesis
      by (auto simp add: copy_y.simps [of img W H k y buf] unchanged_outside_def)
  next
    case True
    from True "1.prems"(1) obtain b1 where
      row: "copy_x img W H k y 0 buf = Some b1" and
      rec: "copy_y img W H k (Suc y) b1 = Some b"
      by (auto simp add: copy_y.simps [of img W H k y buf] split: option.splits)
    from copy_x_Some [OF row] have
      fr1: "unchanged_outside (pixel_index W H k y 0) (pixel_index W H k (Suc y) 0) buf b1"
      and ct1: "\<forall>x'. x' < W \<longrightarrow> pixel_stored b1 (pixel_index W H k y x') (pixelColor img x' y)"
      by (simp_all add: pixel_index_row_end)
    from "1.IH" [OF True row rec] True have
      fr2: "unchanged_outside (pixel_index W H k (Suc y) 0) (pixel_index W H (Suc k) 0 0) b1 b"
      and ct2: "\<forall>y' x'. Suc y \<le> y' \<and> y' < H \<and> x' < W \<longrightarrow>
        pixel_stored b (pixel_index W H k y' x') (pixelColor img x' y')"
      by simp_all
    have "unchanged_outside (pixel_index W H k y 0) (pixel_index W H (Suc k) 0 0) buf b"
      using fr1 fr2 pixel_index_mono_y [of y "Suc y" W H k] pixel_index_y_bound [OF True]
      by (rule unchanged_outside_trans) simp
    moreover have "pixel_stored b (pixel_index W H k y' x') (pixelColor img x' y')"
      if "y \<le> y'" "y' < H" "x' < W" for y' x'
    proof (cases "y' = y")
      case True
      from ct1 that(3) have "pixel_stored b1 (pixel_index W H k y x') (pixelColor img x' y)"
        by blast
      then have "pixel_stored b (pixel_index W H k y x') (pixelColor img x' y)"
        using fr2 pixel_index_xy_bound [OF that(3)] by (rule pixel_stored_unchanged)
      with True show ?thesis by simp
    next
      case False
      with that have "Suc y \<le> y'" by simp
      with ct2 that show ?thesis by blast
    qed
    ultimately show ?thesis by blast
  qed
qed

lemma copy_y_succeeds:
  "y \<le> H \<Longrightarrow> pixel_index W H (Suc k) 0 0 \<le> length buf \<Longrightarrow>
   \<exists>b. copy_y img W H k y buf = Some b"
proof (induction img W H k y buf rule: copy_y.induct)
  case (1 img W H k y buf)
  show ?case
  proof (cases "y < H")
    case False
    then show ?thesis by (simp add: copy_y.simps [of img W H k y buf])
  next
    case True
    have "pixel_index W H k y W \<le> length buf"
      using pixel_index_y_bound [OF True, of W k] "1.prems"(2)
      by (simp add: pixel_index_row_end)
    then obtain b1 where row: "copy_x img W H k y 0 buf = Some b1"
      using copy_x_succeeds [of 0 W H k y buf img] by auto
    from copy_x_Some [OF row] have len: "length b1 = length buf"
      by (simp add: unchanged_outside_def)
    from "1.IH" [OF True row] True "1.prems"(2) len
    have "\<exists>b. copy_y img W H k (Suc y) b1 = Some b" by simp
    then show ?thesis
      using True row by (simp add: copy_y.simps [of img W H k y buf])
  qed
qed

lemma copy_views_Inr:
  "copy_views decode vs W H k buf = Inr b \<Longrightarrow> k \<le> length vs \<Longrightarrow>
   unchanged_outside (pixel_index W H k 0 0) (pixel_index W H (length vs) 0 0) buf b \<and>
   (\<forall>k'. k \<le> k' \<and> k' < length vs \<longrightarrow>
      img_width (decode (path (vs ! k'))) = W \<and> img_height (decode (path (vs ! k'))) = H \<and>
      (\<forall>y' x'. y' < H \<and> x' < W \<longrightarrow>
         pixel_stored b (pixel_index W H k' y' x')
           (pixelColor (decode (path (vs ! k'))) x' y')))"
proof (induction decode vs W H k buf rule: copy_views.induct)
  case (1 decode vs W H k buf)
  let ?img = "decode (path (vs ! k))"
  show ?case
  proof (cases "k < length vs")
    case False
    with "1.prems" show ?thesis
      by (auto simp add: copy_views.simps [of decode vs W H k buf] unchanged_outside_def)
  next
    case True
    from True "1.prems"(1) obtain b1 where
      dims: "img_width ?img = W" "img_height ?img = H" and
      view: "copy_y ?img W H k 0 buf = Some b1" and
      rec: "copy_views decode vs W H (Suc k) b1 = Inr b"
      by (auto simp add: copy_views.simps [of decode vs W H k buf] Let_def
          split: if_splits option.splits)
    from copy_y_Some [OF view] have
      fr1: "unchanged_outside (pixel_index W H k 0 0) (pixel_index W H (Suc k) 0 0) buf b1"
      and ct1: "\<forall>y' x'. y' < H \<and> x' < W \<longrightarrow>
        pixel_stored b1 (pixel_index W H k y' x') (pixelColor ?img x' y')"
      by simp_all
    have ok: "\<not> (img_width ?img \<noteq> W \<or> img_height ?img \<noteq> H)"
      using dims by simp
    from "1.IH" [OF True refl ok view rec] True have
      fr2: "unchanged_outside (pixel_index W H (Suc k) 0 0)
              (pixel_index W H (length vs) 0 0) b1 b"
      and ct2: "\<forall>k'. Suc k \<le> k' \<and> k' < length vs \<longrightarrow>
        img_width (decode (path (vs ! k'))) = W \<and> img_height (decode (path (vs ! k'))) = H \<and>
        (\<forall>y' x'. y' < H \<and> x' < W \<longrightarrow>
           pixel_stored b (pixel_index W H k' y' x')
             (pixelColor (decode (path (vs ! k'))) x' y'))"
      by simp_all
    have "unchanged_outside (pixel_index W H k 0 0) (pixel_index W H (length vs) 0 0) buf b"
      using fr1 fr2 pixel_index_mono_k [of k "Suc k" W H]
        pixel_index_mono_k [of "Suc k" "length vs" W H] True
      by (intro unchanged_outside_trans [OF fr1 fr2]) simp_all
    moreover have "img_width (decode (path (vs ! k'))) = W \<and>
        img_height (decode (path (vs ! k'))) = H \<and>
        (\<forall>y' x'. y' < H \<and> x' < W \<longrightarrow>
           pixel_stored b (pixel_index W H k' y' x')
             (pixelColor (decode (path (vs ! k'))) x' y'))"
      if "k \<le> k'" "k' < length vs" for k'
    proof (cases "k' = k")
      case True
      have "pixel_stored b (pixel_index W H k y' x') (pixelColor ?img x' y')"
        if "y' < H" "x' < W" for y' x'
      proof -
        from ct1 that have "pixel_stored b1 (pixel_index W H k y' x') (pixelColor ?img x' y')"
          by blast
        moreover have "pixel_index W H k y' x' + 3 \<le> pixel_index W H (Suc k) 0 0"
          using pixel_index_xy_bound [OF that(2), of H k y'] pixel_index_y_bound [OF that(1), of W k]
          by simp
        ultimately show ?thesis
          using fr2 by (intro pixel_stored_unchanged [OF _ fr2])
      qed
      with True dims show ?thesis by simp
    next
      case False
      with that have "Suc k \<le> k'" by simp
      with ct2 that show ?thesis by blast
    qed
    ultimately show ?thesis by blast
  qed
qed

lemma copy_views_succeeds:
  "k \<le> length vs \<Longrightarrow> pixel_index W H (length vs) 0 0 \<le> length buf \<Longrightarrow>
   (\<forall>k'. k \<le> k' \<and> k' < length vs \<longrightarrow>
      img_width (decode (path (vs ! k'))) = W \<and> img_height (decode (path (vs ! k'))) = H) \<Longrightarrow>
   \<exists>b. copy_views decode vs W H k buf = Inr b"
proof (induction decode vs W H k buf rule: copy_views.induct)
  case (1 decode vs W H k buf)
  let ?img = "decode (path (vs ! k))"
  show ?case
  proof (cases "k < length vs")
    case False
    then show ?thesis by (simp add: copy_views.simps [of decode vs W H k buf])
  next
    case True
    with "1.prems"(3) have dims: "img_width ?img = W" "img_height ?img = H"
      by simp_all
    have "pixel_index W H (Suc k) 0 0 \<le> length buf"
      using pixel_index_mono_k [of "Suc k" "length vs" W H] True "1.prems"(2) by simp
    then obtain b1 where view: "copy_y ?img W H k 0 buf = Some b1"
      using copy_y_succeeds [of 0 H W k buf ?img] by auto
    from copy_y_Some [OF view] have len: "length b1 = length buf"
      by (simp add: unchanged_outside_def)
    have ok: "\<not> (img_width ?img \<noteq> W \<or> img_height ?img \<noteq> H)"
      using dims by simp
    from "1.IH" [OF True refl ok view] True "1.prems"(2,3) len
    have "\<exists>b. copy_views decode vs W H (Suc k) b1 = Inr b" by simp
    then show ?thesis
      using True dims view by (simp add: copy_views.simps [of decode vs W H k buf])
  qed
qed

lemma copy_views_aborts:
  "k \<le> k0 \<Longrightarrow> k0 < length vs \<Longrightarrow>
   img_width (decode (path (vs ! k0))) \<noteq> W \<or> img_height (decode (path (vs ! k0))) \<noteq> H \<Longrightarrow>
   pixel_index W H k0 0 0 \<le> length buf \<Longrightarrow>
   copy_views decode vs W H k buf = Inl Aborted"
proof (induction decode vs W H k buf rule: copy_views.induct)
  case (1 decode vs W H k buf)
  let ?img = "decode (path (vs ! k))"
  from "1.prems"(1,2) have inside: "k < length vs" by simp
  show ?case
  proof (cases "img_width ?img \<noteq> W \<or> img_height ?img \<noteq> H")
    case True
    with inside show ?thesis
      by (simp add: copy_views.simps [of decode vs W H k buf])
  next
    case False
    with "1.prems"(3) have "k \<noteq> k0" by auto
    with "1.prems"(1) have next_le: "Suc k \<le> k0" by simp
    have "pixel_index W H (Suc k) 0 0 \<le> length buf"
      using pixel_index_mono_k [OF next_le, of W H] "1.prems"(4) by simp
    then obtain b1 where view: "copy_y ?img W H k 0 buf = Some b1"
      using copy_y_succeeds [of 0 H W k buf ?img] by auto
    from copy_y_Some [OF view] have len: "length b1 = length buf"
      by (simp add: unchanged_outside_def)
    from "1.IH" [OF inside refl False view next_le "1.prems"(2,3)] "1.prems"(4) len
    have "copy_views decode vs W H (Suc k) b1 = Inl Aborted" by simp
    then show ?thesis
      using inside False view by (simp add: copy_views.simps [of decode vs W H k buf])
  qed
qed

lemma pixel_index_view: "pixel_index W H n 0 0 = n * H * W * 3"
  by (simp add: pixel_index_def)

lemma imageData_size_fits:
  assumes "0 \<le> a" and "a = rows * cols" and "0 < h" and "0 < w"
    and "a * h * w * 3 \<le> INT_MAX"
  shows "imageData_size rows cols h w = Some (rows * cols * h * w * 3)"
proof -
  have lo: "INT_MIN \<le> 0" by (simp add: INT_MIN_def)
  have p1: "0 \<le> a * h" using assms(1,3) by simp
  have p2: "0 \<le> a * h * w" using p1 assms(4) by simp
  have s3: "a * h * w \<le> a * h * w * 3" using p2 by simp
  have "a * h * 1 \<le> a * h * w" using p1 assms(4) by (intro mult_left_mono) simp_all
  then have s2: "a * h \<le> a * h * w" by simp
  have "a * 1 \<le> a * h" using assms(1,3) by (intro mult_left_mono) simp_all
  then have s1: "a \<le> a * h" by simp
  from s1 s2 s3 assms(5) have
    "a \<le> INT_MAX" "a * h \<le> INT_MAX" "a * h * w \<le> INT_MAX" by simp_all
  with lo assms(1,2,5) p1 p2 show ?thesis
    by (simp add: imageData_size_def int_mul_def)
qed

section \<open>Loading a light field: the operation\<close>

lemma setLightField_loads:
  assumes ne: "vs \<noteq> []" and pos: "0 < W" "0 < H"
    and same: "\<forall>k<length vs. img_width (decode (path (vs ! k))) = W \<and>
        img_height (decode (path (vs ! k))) = H"
    and grid: "int (length vs) \<le> rows * cols"
    and fits: "rows * cols * int H * int W * 3 \<le> INT_MAX"
  shows "\<exists>s' t. setLightField decode vs rows cols s = Inr s' \<and>
    lightFieldTexture s' = Some t \<and>
    imageSize s' = QSize (int W) (int H) \<and>
    tex_width t = int W \<and> tex_height t = int H \<and> tex_depth t = rows * cols \<and>
    gl s' = gl s @ [MakeCurrent, TextureAllocateStorage (int W) (int H) (rows * cols),
      TextureSetData (tex_data t)] \<and>
    length (tex_data t) = nat (rows * cols) * H * W * 3 \<and>
    (\<forall>i. length vs * H * W * 3 \<le> i \<and> i < length (tex_data t) \<longrightarrow> tex_data t ! i = 0) \<and>
    (\<forall>k y x. k < length vs \<and> y < H \<and> x < W \<longrightarrow>
       pixel_stored (tex_data t) (pixel_index W H k y x)
         (pixelColor (decode (path (vs ! k))) x y))"
proof -
  let ?temp = "decode (path (vs ! 0))"
  let ?n = "rows * cols * int H * int W * 3"
  from ne have len0: "0 < length vs" by simp
  with same have dims: "img_width ?temp = W" "img_height ?temp = H" by simp_all
  with pos have notnull: "\<not> isNull ?temp" by (simp add: isNull_def)
  have nonneg: "0 \<le> rows * cols" using grid by linarith
  have size: "imageData_size rows cols (int H) (int W) = Some ?n"
    using nonneg refl _ _ fits by (rule imageData_size_fits) (simp_all add: pos)
  have n0: "0 \<le> ?n" using nonneg by simp
  have natn: "nat ?n = nat (rows * cols) * H * W * 3"
    using nonneg by (simp add: nat_mult_distrib)
  have "length vs \<le> nat (rows * cols)" using grid by linarith
  then have "length vs * H * W * 3 \<le> nat (rows * cols) * H * W * 3"
    by (intro mult_le_mono1)
  then have room: "pixel_index W H (length vs) 0 0 \<le> length (replicate (nat ?n) (0::uint8_t))"
    by (simp only: pixel_index_view natn length_replicate)
  have all: "\<forall>k'. 0 \<le> k' \<and> k' < length vs \<longrightarrow>
      img_width (decode (path (vs ! k'))) = W \<and> img_height (decode (path (vs ! k'))) = H"
    using same by simp
  from copy_views_succeeds [OF _ room all] obtain buf where
    run: "copy_views decode vs W H 0 (replicate (nat ?n) 0) = Inr buf" by auto
  from copy_views_Inr [OF run] have
    fr: "unchanged_outside 0 (length vs * H * W * 3) (replicate (nat ?n) 0) buf" and
    ct: "\<forall>k y x. k < length vs \<and> y < H \<and> x < W \<longrightarrow>
       pixel_stored buf (pixel_index W H k y x) (pixelColor (decode (path (vs ! k))) x y)"
    by (simp_all add: pixel_index_view)
  from fr have len: "length buf = nat (rows * cols) * H * W * 3"
    by (simp add: unchanged_outside_def natn)
  have zero: "\<forall>i. length vs * H * W * 3 \<le> i \<and> i < length buf \<longrightarrow> buf ! i = 0"
    using fr len by (simp add: unchanged_outside_def natn)
  show ?thesis
    using ne notnull dims size n0 run len zero ct
    by (simp add: setLightField_def Let_def)
qed

lemma setLightField_Inr_imageSize:
  assumes "setLightField decode vs rows cols s = Inr s'"
  shows "imageSize s' = QSize (int (img_width (decode (path (vs ! 0)))))
      (int (img_height (decode (path (vs ! 0))))) \<and>
    0 < img_height (decode (path (vs ! 0)))"
  using assms
  by (auto simp add: setLightField_def Let_def isNull_def
      split: if_splits option.splits sum.splits)

lemma setLightField_mismatch:
  assumes k: "k < length vs"
    and diff: "img_width (decode (path (vs ! k))) \<noteq> img_width (decode (path (vs ! 0))) \<or>
      img_height (decode (path (vs ! k))) \<noteq> img_height (decode (path (vs ! 0)))"
    and grid: "int k < rows * cols"
    and fits: "rows * cols * int (img_height (decode (path (vs ! 0)))) *
      int (img_width (decode (path (vs ! 0)))) * 3 \<le> INT_MAX"
  shows "\<exists>s1. setLightField decode vs rows cols s = Inl (Aborted, s1)"
proof (cases "isNull (decode (path (vs ! 0)))")
  case True
  with k show ?thesis
    by (auto simp add: setLightField_def Let_def)
next
  case False
  let ?temp = "decode (path (vs ! 0))"
  let ?W = "img_width ?temp"
  let ?H = "img_height ?temp"
  let ?n = "rows * cols * int ?H * int ?W * 3"
  from False have pos: "0 < ?W" "0 < ?H" by (simp_all add: isNull_def)
  from k have ne: "vs \<noteq> []" by auto
  have nonneg: "0 \<le> rows * cols" using grid by linarith
  have size: "imageData_size rows cols (int ?H) (int ?W) = Some ?n"
    using nonneg refl _ _ fits by (rule imageData_size_fits) (simp_all add: pos)
  have n0: "0 \<le> ?n" using nonneg by simp
  have natn: "nat ?n = nat (rows * cols) * ?H * ?W * 3"
    using nonneg by (simp add: nat_mult_distrib)
  have "k \<le> nat (rows * cols)" using grid by linarith
  then have "k * ?H * ?W * 3 \<le> nat (rows * cols) * ?H * ?W * 3"
    by (intro mult_le_mono1)
  then have room: "pixel_index ?W ?H k 0 0 \<le> length (replicate (nat ?n) (0::uint8_t))"
    by (simp only: pixel_index_view natn length_replicate)
  have "copy_views decode vs ?W ?H 0 (replicate (nat ?n) 0) = Inl Aborted"
    using _ k diff room by (rule copy_views_aborts) simp
  with ne False size n0 show ?thesis
    by (simp add: setLightField_def Let_def)
qed

lemma setLightField_Inl:
  assumes "setLightField decode vs rows cols s = Inl (f, s1)"
  shows "lightFieldTexture s1 = lightFieldTexture s \<and> gl s1 = gl s @ [MakeCurrent]"
  using assms
  by (auto simp add: setLightField_def Let_def split: if_splits option.splits sum.splits)

lemma setLightField_Inr_dims:
  assumes "setLightField decode vs rows cols s = Inr s'" and "k < length vs"
  shows "img_width (decode (path (vs ! k))) = img_width (decode (path (vs ! 0))) \<and>
    img_height (decode (path (vs ! k))) = img_height (decode (path (vs ! 0)))"
proof -
  from assms(1) obtain n buf where
    "copy_views decode vs (img_width (decode (path (vs ! 0))))
       (img_height (decode (path (vs ! 0)))) 0 (replicate n 0) = Inr buf"
    by (auto simp add: setLightField_def Let_def split: if_splits option.splits sum.splits)
  from copy_views_Inr [OF this] assms(2) show ?thesis by simp
qed

lemma int_mul_Some: "int_mul a b = Some c \<Longrightarrow> c = a * b \<and> c \<le> INT_MAX"
  by (auto simp add: int_mul_def split: if_splits)

lemma setLightField_Inr_fits:
  assumes "setLightField decode vs rows cols s = Inr s'"
  shows "rows * cols * int (img_height (decode (path (vs ! 0)))) *
      int (img_width (decode (path (vs ! 0)))) * 3 \<le> INT_MAX"
proof -
  from assms obtain n where
    "imageData_size rows cols (int (img_height (decode (path (vs ! 0)))))
       (int (img_width (decode (path (vs ! 0))))) = Some n"
    by (auto simp add: setLightField_def Let_def split: if_splits option.splits sum.splits)
  then show ?thesis
    by (auto simp add: imageData_size_def split: option.splits dest!: int_mul_Some)
qed

text \<open>
  The size of the buffer is computed in \<open>int\<close>: four views of 16384 by 16384 pixels need
  3221225472 bytes, the product overflows, and the behaviour of the load is undefined.
  A load returns only if the byte count \<open>rows * cols * H * W * 3\<close> is at most \<open>INT_MAX\<close>.
\<close>

lemma imageData_size_overflow: "imageData_size 2 2 16384 16384 = None"
  by (simp add: imageData_size_def int_mul_def INT_MAX_def INT_MIN_def)

text \<open>
  Claim C1, amended. Take a grid of \<open>rows * cols\<close> views, at least one, whose images all
  have width \<open>W\<close> and height \<open>H\<close> (both positive, so every image was decoded). If the byte
  count \<open>rows * cols * H * W * 3\<close> is at most \<open>INT_MAX\<close>, \<open>setLightField\<close> returns. Whenever
  it returns, the buffer it uploads as the data of the texture has that many bytes, and
  for every view \<open>k\<close> below \<open>rows * cols\<close>, every \<open>y\<close> below \<open>H\<close> and every \<open>x\<close> below \<open>W\<close>
  the bytes at \<open>((k * H + y) * W + x) * 3\<close>, that index plus 1 and that index plus 2 are
  the red, the green and the blue channel of pixel \<open>(x, y)\<close> of the image of view \<open>k\<close>.
\<close>

theorem setLightField_tiling:
  assumes "viewInfos \<noteq> []"
    and "int (length viewInfos) = rows * cols"
    and "0 < W" and "0 < H"
    and "\<forall>k<length viewInfos. img_width (decode (path (viewInfos ! k))) = W \<and>
        img_height (decode (path (viewInfos ! k))) = H"
  shows "(rows * cols * int H * int W * 3 \<le> INT_MAX \<longrightarrow>
      (\<exists>s'. setLightField decode viewInfos rows cols s = Inr s')) \<and>
    (\<forall>s'. setLightField decode viewInfos rows cols s = Inr s' \<longrightarrow>
      (\<exists>t. lightFieldTexture s' = Some t \<and>
        last (gl s') = TextureSetData (tex_data t) \<and>
        length (tex_data t) = nat (rows * cols) * H * W * 3 \<and>
        (\<forall>k y x. k < nat (rows * cols) \<and> y < H \<and> x < W \<longrightarrow>
           uint (tex_data t ! (((k * H + y) * W + x) * 3)) =
             red (pixelColor (decode (path (viewInfos ! k))) x y) \<and>
           uint (tex_data t ! (((k * H + y) * W + x) * 3 + 1)) =
             green (pixelColor (decode (path (viewInfos ! k))) x y) \<and>
           uint (tex_data t ! (((k * H + y) * W + x) * 3 + 2)) =
             blue (pixelColor (decode (path (viewInfos ! k))) x y))))"
proof -
  from assms(2) have grid: "int (length viewInfos) \<le> rows * cols"
    and count: "nat (rows * cols) = length viewInfos"
    by simp_all
  from assms(1,5) have first: "img_width (decode (path (viewInfos ! 0))) = W"
    "img_height (decode (path (viewInfos ! 0))) = H"
    by simp_all
  note loads = setLightField_loads [OF assms(1,3,4,5) grid, of s]
  have returns: "\<exists>s'. setLightField decode viewInfos rows cols s = Inr s'"
    if "rows * cols * int H * int W * 3 \<le> INT_MAX"
    using loads [OF that] by blast
  have tiled: "\<exists>t. lightFieldTexture s' = Some t \<and>
        last (gl s') = TextureSetData (tex_data t) \<and>
        length (tex_data t) = nat (rows * cols) * H * W * 3 \<and>
        (\<forall>k y x. k < nat (rows * cols) \<and> y < H \<and> x < W \<longrightarrow>
           uint (tex_data t ! (((k * H + y) * W + x) * 3)) =
             red (pixelColor (decode (path (viewInfos ! k))) x y) \<and>
           uint (tex_data t ! (((k * H + y) * W + x) * 3 + 1)) =
             green (pixelColor (decode (path (viewInfos ! k))) x y) \<and>
           uint (tex_data t ! (((k * H + y) * W + x) * 3 + 2)) =
             blue (pixelColor (decode (path (viewInfos ! k))) x y))"
    if run: "setLightField decode viewInfos rows cols s = Inr s'" for s'
  proof -
    from setLightField_Inr_fits [OF run] first
    have "rows * cols * int H * int W * 3 \<le> INT_MAX" by simp
    from loads [OF this] run show ?thesis
      by (auto simp add: count pixel_stored_def pixel_index_def)
  qed
  from returns tiled show ?thesis by blast
qed

text \<open>
  Two views of 2 by 1 pixels: the red channel is 10 plus the column, the blue channel the
  length of the path. Bytes 3 to 5 are pixel (1, 0) of view 0, bytes 6 to 8 are pixel
  (0, 0) of view 1.
\<close>

theorem setLightField_tiling_witness:
  "\<exists>s' t.
     setLightField
       (\<lambda>p. \<lparr> img_width = 2, img_height = 1,
          pixelColor = (\<lambda>x y. \<lparr> red_channel = of_nat x + 10, green_channel = 20,
            blue_channel = of_nat (length p) \<rparr>) \<rparr>)
       [\<lparr> path = ''a'' \<rparr>, \<lparr> path = ''bb'' \<rparr>] 1 2 (LightFieldWidget_new 3 4) = Inr s' \<and>
     lightFieldTexture s' = Some t \<and> length (tex_data t) = 12 \<and>
     uint (tex_data t ! 3) = 11 \<and> uint (tex_data t ! 4) = 20 \<and> uint (tex_data t ! 5) = 1 \<and>
     uint (tex_data t ! 6) = 10 \<and> uint (tex_data t ! 7) = 20 \<and> uint (tex_data t ! 8) = 2"
proof -
  let ?decode = "\<lambda>p. \<lparr> img_width = 2, img_height = 1,
          pixelColor = (\<lambda>x y. \<lparr> red_channel = of_nat x + 10, green_channel = 20,
            blue_channel = of_nat (length p) \<rparr>) \<rparr>"
  let ?vs = "[\<lparr> path = ''a'' \<rparr>, \<lparr> path = ''bb'' \<rparr>]"
  have h1: "?vs \<noteq> []" by simp
  have h2: "int (length ?vs) = 1 * 2" by simp
  have h3: "0 < (2::nat)" and h4: "0 < (1::nat)" by simp_all
  have h5: "\<forall>k<length ?vs. img_width (?decode (path (?vs ! k))) = 2 \<and>
        img_height (?decode (path (?vs ! k))) = 1"
    by simp
  have h6: "1 * 2 * int 1 * int 2 * 3 \<le> INT_MAX" by (simp add: INT_MAX_def)
  note inst = setLightField_tiling [of ?vs 1 2 2 1 ?decode "LightFieldWidget_new 3 4",
      OF h1 h2 h3 h4 h5]
  from inst h6 obtain s' where
    run: "setLightField ?decode ?vs 1 2 (LightFieldWidget_new 3 4) = Inr s'"
    by blast
  with inst obtain t where
    tex: "lightFieldTexture s' = Some t" and
    len: "length (tex_data t) = nat (1 * 2) * 1 * 2 * 3" and
    px: "\<forall>k y x. k < nat (1 * 2) \<and> y < 1 \<and> x < 2 \<longrightarrow>
       uint (tex_data t ! (((k * 1 + y) * 2 + x) * 3)) =
         red (pixelColor (?decode (path (?vs ! k))) x y) \<and>
       uint (tex_data t ! (((k * 1 + y) * 2 + x) * 3 + 1)) =
         green (pixelColor (?decode (path (?vs ! k))) x y) \<and>
       uint (tex_data t ! (((k * 1 + y) * 2 + x) * 3 + 2)) =
         blue (pixelColor (?decode (path (?vs ! k))) x y)"
    by blast
  from px [rule_format, of 0 0 1] px [rule_format, of 1 0 0] run tex len
  show ?thesis
    by (simp add: red_def green_def blue_def)
qed

text \<open>
  The claim as it was stated, for every valid grid, fails for a grid whose byte count
  exceeds \<open>INT_MAX\<close>. Four views of 16384 by 16384 pixels in a grid of 2 by 2 need
  3221225472 bytes: the product that sizes the buffer overflows \<open>int\<close>, the behaviour is
  undefined and no buffer with the stated contents is built.
\<close>

theorem setLightField_tiling_counterexample:
  "setLightField
     (\<lambda>p. \<lparr> img_width = 16384, img_height = 16384,
        pixelColor = (\<lambda>x y. \<lparr> red_channel = 10, green_channel = 20, blue_channel = 30 \<rparr>) \<rparr>)
     [\<lparr> path = ''a'' \<rparr>, \<lparr> path = ''b'' \<rparr>, \<lparr> path = ''c'' \<rparr>, \<lparr> path = ''d'' \<rparr>] 2 2
     (LightFieldWidget_new 3 4) =
   Inl (Undefined, (LightFieldWidget_new 3 4)
     \<lparr> lfRows := 2, lfCols := 2, imageSize := QSize 16384 16384, gl := [MakeCurrent] \<rparr>)"
  by (simp add: setLightField_def Let_def isNull_def imageData_size_def int_mul_def
      INT_MAX_def INT_MIN_def LightFieldWidget_new_def)

text \<open>
  Claim C9, amended. Take fewer views than \<open>rows * cols\<close> (at least one), all images of
  width \<open>W\<close> and height \<open>H\<close>. If the byte count \<open>rows * cols * H * W * 3\<close> is at most
  \<open>INT_MAX\<close>, \<open>setLightField\<close> returns. Whenever it returns, the buffer has that many
  bytes, the views below the number of images hold the pixels of their images, and every
  byte from index \<open>length viewInfos * H * W * 3\<close> on, that is every byte of the remaining
  layers, is 0.
\<close>

theorem setLightField_zero_fill:
  assumes "viewInfos \<noteq> []"
    and "int (length viewInfos) < rows * cols"
    and "0 < W" and "0 < H"
    and "\<forall>k<length viewInfos. img_width (decode (path (viewInfos ! k))) = W \<and>
        img_height (decode (path (viewInfos ! k))) = H"
  shows "(rows * cols * int H * int W * 3 \<le> INT_MAX \<longrightarrow>
      (\<exists>s'. setLightField decode viewInfos rows cols s = Inr s')) \<and>
    (\<forall>s'. setLightField decode viewInfos rows cols s = Inr s' \<longrightarrow>
      (\<exists>t. lightFieldTexture s' = Some t \<and>
        length (tex_data t) = nat (rows * cols) * H * W * 3 \<and>
        (\<forall>i. length viewInfos * H * W * 3 \<le> i \<and> i < length (tex_data t) \<longrightarrow>
           tex_data t ! i = 0) \<and>
        (\<forall>k y x. k < length viewInfos \<and> y < H \<and> x < W \<longrightarrow>
           uint (tex_data t ! (((k * H + y) * W + x) * 3)) =
             red (pixelColor (decode (path (viewInfos ! k))) x y) \<and>
           uint (tex_data t ! (((k * H + y) * W + x) * 3 + 1)) =
             green (pixelColor (decode (path (viewInfos ! k))) x y) \<and>
           uint (tex_data t ! (((k * H + y) * W + x) * 3 + 2)) =
             blue (pixelColor (decode (path (viewInfos ! k))) x y))))"
proof -
  from assms(2) have grid: "int (length viewInfos) \<le> rows * cols"
    by simp
  from assms(1,5) have first: "img_width (decode (path (viewInfos ! 0))) = W"
    "img_height (decode (path (viewInfos ! 0))) = H"
    by simp_all
  note loads = setLightField_loads [OF assms(1,3,4,5) grid, of s]
  have returns: "\<exists>s'. setLightField decode viewInfos rows cols s = Inr s'"
    if "rows * cols * int H * int W * 3 \<le> INT_MAX"
    using loads [OF that] by blast
  have filled: "\<exists>t. lightFieldTexture s' = Some t \<and>
        length (tex_data t) = nat (rows * cols) * H * W * 3 \<and>
        (\<forall>i. length viewInfos * H * W * 3 \<le> i \<and> i < length (tex_data t) \<longrightarrow>
           tex_data t ! i = 0) \<and>
        (\<forall>k y x. k < length viewInfos \<and> y < H \<and> x < W \<longrightarrow>
           uint (tex_data t ! (((k * H + y) * W + x) * 3)) =
             red (pixelColor (decode (path (viewInfos ! k))) x y) \<and>
           uint (tex_data t ! (((k * H + y) * W + x) * 3 + 1)) =
             green (pixelColor (decode (path (viewInfos ! k))) x y) \<and>
           uint (tex_data t ! (((k * H + y) * W + x) * 3 + 2)) =
             blue (pixelColor (decode (path (viewInfos ! k))) x y))"
    if run: "setLightField decode viewInfos rows cols s = Inr s'" for s'
  proof -
    from setLightField_Inr_fits [OF run] first
    have "rows * cols * int H * int W * 3 \<le> INT_MAX" by simp
    from loads [OF this] run show ?thesis
      by (auto simp add: pixel_stored_def pixel_index_def)
  qed
  from returns filled show ?thesis by blast
qed

text \<open>
  One view of 2 by 1 pixels in a grid of two: bytes 6 to 11 are the layer of the
  missing view.
\<close>

theorem setLightField_zero_fill_witness:
  "\<exists>s' t.
     setLightField
       (\<lambda>p. \<lparr> img_width = 2, img_height = 1,
          pixelColor = (\<lambda>x y. \<lparr> red_channel = of_nat x + 10, green_channel = 20,
            blue_channel = 30 \<rparr>) \<rparr>)
       [\<lparr> path = ''a'' \<rparr>] 1 2 (LightFieldWidget_new 3 4) = Inr s' \<and>
     lightFieldTexture s' = Some t \<and> length (tex_data t) = 12 \<and>
     uint (tex_data t ! 3) = 11 \<and> tex_data t ! 6 = 0 \<and> tex_data t ! 11 = 0"
proof -
  let ?decode = "\<lambda>p::string. \<lparr> img_width = 2, img_height = 1,
          pixelColor = (\<lambda>x y. \<lparr> red_channel = of_nat x + 10, green_channel = 20,
            blue_channel = 30 \<rparr>) \<rparr>"
  let ?vs = "[\<lparr> path = ''a'' \<rparr>]"
  have h1: "?vs \<noteq> []" by simp
  have h2: "int (length ?vs) < 1 * 2" by simp
  have h3: "0 < (2::nat)" and h4: "0 < (1::nat)" by simp_all
  have h5: "\<forall>k<length ?vs. img_width (?decode (path (?vs ! k))) = 2 \<and>
        img_height (?decode (path (?vs ! k))) = 1"
    by simp
  have h6: "1 * 2 * int 1 * int 2 * 3 \<le> INT_MAX" by (simp add: INT_MAX_def)
  note inst = setLightField_zero_fill [of ?vs 1 2 2 1 ?decode "LightFieldWidget_new 3 4",
      OF h1 h2 h3 h4 h5]
  from inst h6 obtain s' where
    run: "setLightField ?decode ?vs 1 2 (LightFieldWidget_new 3 4) = Inr s'"
    by blast
  with inst obtain t where
    tex: "lightFieldTexture s' = Some t" and
    len: "length (tex_data t) = nat (1 * 2) * 1 * 2 * 3" and
    zero: "\<forall>i. length ?vs * 1 * 2 * 3 \<le> i \<and> i < length (tex_data t) \<longrightarrow>
       tex_data t ! i = 0" and
    px: "\<forall>k y x. k < length ?vs \<and> y < 1 \<and> x < 2 \<longrightarrow>
       uint (tex_data t ! (((k * 1 + y) * 2 + x) * 3)) =
         red (pixelColor (?decode (path (?vs ! k))) x y) \<and>
       uint (tex_data t ! (((k * 1 + y) * 2 + x) * 3 + 1)) =
         green (pixelColor (?decode (path (?vs ! k))) x y) \<and>
       uint (tex_data t ! (((k * 1 + y) * 2 + x) * 3 + 2)) =
         blue (pixelColor (?decode (path (?vs ! k))) x y)"
    by blast
  from px [rule_format, of 0 0 1] zero [rule_format, of 6] zero [rule_format, of 11]
    run tex len
  show ?thesis
    by (simp add: red_def)
qed

text \<open>
  The claim as it was stated fails in the same way: three views of 16384 by 16384
  pixels in a grid of 2 by 2 are fewer than the grid holds, and the load ends in the
  overflow of the byte count, with no buffer whose remaining layer could be 0.
\<close>

theorem setLightField_zero_fill_counterexample:
  "setLightField
     (\<lambda>p. \<lparr> img_width = 16384, img_height = 16384,
        pixelColor = (\<lambda>x y. \<lparr> red_channel = 10, green_channel = 20, blue_channel = 30 \<rparr>) \<rparr>)
     [\<lparr> path = ''a'' \<rparr>, \<lparr> path = ''b'' \<rparr>, \<lparr> path = ''c'' \<rparr>] 2 2
     (LightFieldWidget_new 3 4) =
   Inl (Undefined, (LightFieldWidget_new 3 4)
     \<lparr> lfRows := 2, lfCols := 2, imageSize := QSize 16384 16384, gl := [MakeCurrent] \<rparr>)"
  by (simp add: setLightField_def Let_def isNull_def imageData_size_def int_mul_def
      INT_MAX_def INT_MIN_def LightFieldWidget_new_def)

text \<open>
  Claim C4, amended. If some image of the list differs in width or height from the
  first image, \<open>setLightField\<close> never returns: the process stops in a state where the
  texture pointer is the one before the call and the only graphics call made is
  \<open>makeCurrent\<close>, so no storage was allocated and no data uploaded. When that image is
  one of the grid (its index is below \<open>rows * cols\<close>) and the byte count for the size of
  the first image is at most \<open>INT_MAX\<close>, the stop is \<open>std::abort()\<close> after the diagnostic
  (of the decoding when the first image is null, of the size otherwise).
\<close>

theorem setLightField_rejects_mismatch:
  assumes k: "k < length viewInfos"
    and diff: "img_width (decode (path (viewInfos ! k))) \<noteq>
        img_width (decode (path (viewInfos ! 0))) \<or>
      img_height (decode (path (viewInfos ! k))) \<noteq>
        img_height (decode (path (viewInfos ! 0)))"
  shows "\<exists>f s1. setLightField decode viewInfos rows cols s = Inl (f, s1) \<and>
    lightFieldTexture s1 = lightFieldTexture s \<and> gl s1 = gl s @ [MakeCurrent] \<and>
    (int k < rows * cols \<and>
     rows * cols * int (img_height (decode (path (viewInfos ! 0)))) *
       int (img_width (decode (path (viewInfos ! 0)))) * 3 \<le> INT_MAX
     \<longrightarrow> f = Aborted)"
proof (cases "setLightField decode viewInfos rows cols s")
  case (Inr s')
  from setLightField_Inr_dims [OF Inr k] diff show ?thesis by simp
next
  case (Inl e)
  obtain f s1 where e: "e = (f, s1)" by (cases e)
  have "f = Aborted"
    if "int k < rows * cols"
      "rows * cols * int (img_height (decode (path (viewInfos ! 0)))) *
         int (img_width (decode (path (viewInfos ! 0)))) * 3 \<le> INT_MAX"
    using setLightField_mismatch [OF k diff that, of s] Inl e by simp
  with Inl e setLightField_Inl [of decode viewInfos rows cols s f s1] show ?thesis
    by simp
qed

text \<open>
  Three images of height 1 whose width is the length of their path: the third is wider.
\<close>

theorem setLightField_rejects_mismatch_witness:
  "setLightField
       (\<lambda>p. \<lparr> img_width = length p, img_height = 1,
          pixelColor = (\<lambda>x y. \<lparr> red_channel = 10, green_channel = 20,
            blue_channel = 30 \<rparr>) \<rparr>)
       [\<lparr> path = ''ab'' \<rparr>, \<lparr> path = ''cd'' \<rparr>, \<lparr> path = ''efg'' \<rparr>] 1 3
       (LightFieldWidget_new 3 4) =
     Inl (Aborted, (LightFieldWidget_new 3 4)
       \<lparr> lfRows := 1, lfCols := 3, imageSize := QSize 2 1, gl := [MakeCurrent] \<rparr>)"
proof -
  let ?decode = "\<lambda>p::string. \<lparr> img_width = length p, img_height = 1,
          pixelColor = (\<lambda>x y. \<lparr> red_channel = 10, green_channel = 20,
            blue_channel = 30 \<rparr>) \<rparr>"
  let ?vs = "[\<lparr> path = ''ab'' \<rparr>, \<lparr> path = ''cd'' \<rparr>, \<lparr> path = ''efg'' \<rparr>]"
  have h1: "2 < length ?vs" by simp
  have h2: "img_width (?decode (path (?vs ! 2))) \<noteq> img_width (?decode (path (?vs ! 0))) \<or>
      img_height (?decode (path (?vs ! 2))) \<noteq> img_height (?decode (path (?vs ! 0)))"
    by simp
  have h3: "int 2 < 1 * 3 \<and> 1 * 3 * int (img_height (?decode (path (?vs ! 0)))) *
      int (img_width (?decode (path (?vs ! 0)))) * 3 \<le> INT_MAX"
    by (simp add: INT_MAX_def)
  from setLightField_rejects_mismatch [of 2 ?vs ?decode 1 3 "LightFieldWidget_new 3 4",
      OF h1 h2] h3
  obtain s1 where
    run: "setLightField ?decode ?vs 1 3 (LightFieldWidget_new 3 4) = Inl (Aborted, s1)"
    by auto
  then show ?thesis
    by (auto simp add: setLightField_def Let_def isNull_def LightFieldWidget_new_def
        split: if_splits option.splits sum.splits)
qed

text \<open>
  The claim as it was stated, with the abort for every mismatch, fails when the byte
  count overflows: in a grid of 2 by 2 whose first three images have 16384 by 16384
  pixels and whose fourth has a width of 1, the product that sizes the buffer overflows
  \<open>int\<close> before the loop compares any size, so the stop is the undefined behaviour and
  not the abort after the diagnostic.
\<close>

theorem setLightField_rejects_mismatch_counterexample:
  "setLightField
     (\<lambda>p. \<lparr> img_width = (if p = ''d'' then 1 else 16384), img_height = 16384,
        pixelColor = (\<lambda>x y. \<lparr> red_channel = 10, green_channel = 20, blue_channel = 30 \<rparr>) \<rparr>)
     [\<lparr> path = ''a'' \<rparr>, \<lparr> path = ''b'' \<rparr>, \<lparr> path = ''c'' \<rparr>, \<lparr> path = ''d'' \<rparr>] 2 2
     (LightFieldWidget_new 3 4) =
   Inl (Undefined, (LightFieldWidget_new 3 4)
     \<lparr> lfRows := 2, lfCols := 2, imageSize := QSize 16384 16384, gl := [MakeCurrent] \<rparr>)"
  by (simp add: setLightField_def Let_def isNull_def imageData_size_def int_mul_def
      INT_MAX_def INT_MIN_def LightFieldWidget_new_def)

section \<open>Size hints\<close>

lemma int_div_nonneg:
  "0 \<le> a \<Longrightarrow> 0 < b \<Longrightarrow> int_div a b = Some (a div b)"
  by (simp add: int_div_def sgn_if)

text \<open>
  Claim C6, amended. After a load that returned, with a first image of width \<open>W\<close> and
  height \<open>H\<close>, \<open>sizeHint\<close> returns the height 512 and the width \<open>512 * W div H\<close> provided the
  product \<open>512 * W\<close> is at most \<open>INT_MAX\<close>; the operands are not negative, so rounding
  down is the truncation of C++. For a wider image the product overflows \<open>int\<close> and
  the behaviour is undefined. \<open>minimumSizeHint\<close> returns what \<open>sizeHint\<close> returns in
  every state, and both return 512 by 512 in the constructed widget.
\<close>

theorem sizeHint_after_load:
  assumes "setLightField decode viewInfos rows cols s = Inr s'"
    and "img_width (decode (path (viewInfos ! 0))) = W"
    and "img_height (decode (path (viewInfos ! 0))) = H"
  shows "sizeHint s' =
      (if 512 * int W \<le> INT_MAX then Some (QSize (512 * int W div int H) 512) else None) \<and>
    minimumSizeHint u = sizeHint u \<and>
    sizeHint (LightFieldWidget_new w h) = Some (QSize 512 512) \<and>
    minimumSizeHint (LightFieldWidget_new w h) = Some (QSize 512 512)"
proof -
  from setLightField_Inr_imageSize [OF assms(1)] assms(2,3)
  have size: "imageSize s' = QSize (int W) (int H)" and pos: "0 < H"
    by simp_all
  have "sizeHint s' =
      (if 512 * int W \<le> INT_MAX then Some (QSize (512 * int W div int H) 512) else None)"
    using pos by (simp add: sizeHint_def size int_mul_def INT_MIN_def int_div_nonneg)
  moreover have "sizeHint (LightFieldWidget_new w h) = Some (QSize 512 512)"
    by (simp add: sizeHint_def LightFieldWidget_new_def int_mul_def int_div_def
        INT_MAX_def INT_MIN_def)
  ultimately show ?thesis
    by (simp add: minimumSizeHint_def)
qed

text \<open>
  An image of 5 by 3 pixels: 2560 / 3 truncates to 853.
\<close>

theorem sizeHint_after_load_witness:
  "\<exists>s'.
     setLightField
       (\<lambda>p. \<lparr> img_width = 5, img_height = 3,
          pixelColor = (\<lambda>x y. \<lparr> red_channel = 10, green_channel = 20,
            blue_channel = 30 \<rparr>) \<rparr>)
       [\<lparr> path = ''a'' \<rparr>] 1 1 (LightFieldWidget_new 3 4) = Inr s' \<and>
     sizeHint s' = Some (QSize 853 512) \<and> minimumSizeHint s' = Some (QSize 853 512)"
proof -
  let ?decode = "\<lambda>p::string. \<lparr> img_width = 5, img_height = 3,
          pixelColor = (\<lambda>x y. \<lparr> red_channel = 10, green_channel = 20,
            blue_channel = 30 \<rparr>) \<rparr>"
  let ?vs = "[\<lparr> path = ''a'' \<rparr>]"
  have "\<exists>s' t. setLightField ?decode ?vs 1 1 (LightFieldWidget_new 3 4) = Inr s' \<and>
      lightFieldTexture s' = Some t"
    using setLightField_loads [of ?vs 5 3 ?decode 1 1 "LightFieldWidget_new 3 4"]
    by (auto simp add: INT_MAX_def)
  then obtain s' where
    run: "setLightField ?decode ?vs 1 1 (LightFieldWidget_new 3 4) = Inr s'"
    by blast
  have w: "img_width (?decode (path (?vs ! 0))) = 5"
    and h: "img_height (?decode (path (?vs ! 0))) = 3"
    by simp_all
  from sizeHint_after_load [OF run w h, of s' 3 4] run
  show ?thesis by (auto simp add: INT_MAX_def)
qed

text \<open>
  The claim as it was stated, for every loaded image, fails for an image of 4194304 by 1
  pixels: its 12582912 bytes load, and \<open>512 * 4194304\<close> is one more than \<open>INT_MAX\<close>, so
  the size hint is not the width 2147483648 with the height 512.
\<close>

theorem sizeHint_after_load_counterexample:
  "\<not> isl (setLightField
       (\<lambda>p. \<lparr> img_width = 4194304, img_height = 1,
          pixelColor = (\<lambda>x y. \<lparr> red_channel = 10, green_channel = 20,
            blue_channel = 30 \<rparr>) \<rparr>)
       [\<lparr> path = ''a'' \<rparr>] 1 1 (LightFieldWidget_new 3 4)) \<and>
   sizeHint (projr (setLightField
       (\<lambda>p. \<lparr> img_width = 4194304, img_height = 1,
          pixelColor = (\<lambda>x y. \<lparr> red_channel = 10, green_channel = 20,
            blue_channel = 30 \<rparr>) \<rparr>)
       [\<lparr> path = ''a'' \<rparr>] 1 1 (LightFieldWidget_new 3 4))) = None \<and>
   sizeHint (projr (setLightField
       (\<lambda>p. \<lparr> img_width = 4194304, img_height = 1,
          pixelColor = (\<lambda>x y. \<lparr> red_channel = 10, green_channel = 20,
            blue_channel = 30 \<rparr>) \<rparr>)
       [\<lparr> path = ''a'' \<rparr>] 1 1 (LightFieldWidget_new 3 4))) \<noteq>
     Some (QSize (512 * 4194304 div 1) 512)"
proof -
  let ?decode = "\<lambda>p::string. \<lparr> img_width = 4194304, img_height = 1,
          pixelColor = (\<lambda>x y. \<lparr> red_channel = 10, green_channel = 20,
            blue_channel = 30 \<rparr>) \<rparr>"
  let ?vs = "[\<lparr> path = ''a'' \<rparr>]"
  have "\<exists>s' t. setLightField ?decode ?vs 1 1 (LightFieldWidget_new 3 4) = Inr s' \<and>
      lightFieldTexture s' = Some t"
    using setLightField_loads [of ?vs 4194304 1 ?decode 1 1 "LightFieldWidget_new 3 4"]
    by (auto simp add: INT_MAX_def)
  then obtain s' where
    run: "setLightField ?decode ?vs 1 1 (LightFieldWidget_new 3 4) = Inr s'"
    by blast
  from setLightField_Inr_imageSize [OF run]
  have "imageSize s' = QSize 4194304 1" by simp
  then have "sizeHint s' = None"
    by (simp add: sizeHint_def int_mul_def INT_MAX_def INT_MIN_def)
  with run show ?thesis by simp
qed

end
